theory Spec2Isabelle
  imports Main "HOL-Library.Sublist" "HOL-Library.AList"
begin

section \<open>Sample values\<close>

text \<open>
  The values that \<^verbatim>\<open>scripts/generate-from-docs.js\<close> receives are the results of
  \<^verbatim>\<open>JSON.parse\<close>, plus \<^verbatim>\<open>undefined\<close> for a field that the
  endpoint object does not have. An object is the list of its entries in the order of
  \<^verbatim>\<open>Object.entries\<close>. Strings are lists of 8-bit characters, so the model covers
  ASCII text; numbers are integers (their value is only ever tested for being zero and
  printed).
\<close>

datatype json =
    JNull
  | JBool bool
  | JNum int
  | JStr string
  | JArr "json list"
  | JObj "(string \<times> json) list"
  | JUndefined

subsection \<open>String operations of the host language\<close>

definition nl :: string where
  "nl = [CHR 0x0A]"

text \<open>\<^verbatim>\<open>'  '.repeat(n)\<close>\<close>

definition repeat_spaces :: "nat \<Rightarrow> string" where
  "repeat_spaces n = concat (replicate n ''  '')"

text \<open>\<^verbatim>\<open>xs.join(sep)\<close>\<close>

fun join :: "string \<Rightarrow> string list \<Rightarrow> string" where
  "join sep [] = []"
| "join sep [x] = x"
| "join sep (x # y # ys) = x @ sep @ join sep (y # ys)"

text \<open>\<^verbatim>\<open>s.startsWith('{')\<close>\<close>

fun startsWithBrace :: "string \<Rightarrow> bool" where
  "startsWithBrace [] = False"
| "startsWithBrace (c # cs) = (c = CHR ''{'')"

section \<open>The type inferencer\<close>

text \<open>
  \<^verbatim>\<open>jsonToTypeScript(value, indent = 0)\<close>, lines 112 to 157. The tests are kept in
  the order of the source: null, array, object, string, number, boolean, anything else.
\<close>

fun jsonToTypeScript :: "json \<Rightarrow> nat \<Rightarrow> string" where
  "jsonToTypeScript JNull indent = ''null''"
| "jsonToTypeScript (JArr []) indent = ''any[]''"
| "jsonToTypeScript (JArr (v # vs)) indent =
     (let itemType = jsonToTypeScript v indent
      in if startsWithBrace itemType then itemType @ ''[]''
         else ''('' @ itemType @ '')[]'')"
| "jsonToTypeScript (JObj []) indent = ''Record<string, any>''"
| "jsonToTypeScript (JObj (e # es)) indent =
     (let spaces = repeat_spaces indent;
          props = join nl (map (\<lambda>(key, val).
                    spaces @ ''  '' @ key @ '': '' @ jsonToTypeScript val (indent + 1)) (e # es))
      in ''{'' @ nl @ props @ nl @ spaces @ ''}'')"
| "jsonToTypeScript (JStr s) indent = ''string''"
| "jsonToTypeScript (JNum n) indent = ''number''"
| "jsonToTypeScript (JBool b) indent = ''boolean''"
| "jsonToTypeScript JUndefined indent = ''any''"

section \<open>The name deriver\<close>

subsection \<open>Case conversion\<close>

text \<open>
  \<^verbatim>\<open>toUpperCase\<close> and \<^verbatim>\<open>toLowerCase\<close> on ASCII text: the 26 letters are
  converted, every other character is kept.
\<close>

definition lower_letters :: string where
  "lower_letters = ''abcdefghijklmnopqrstuvwxyz''"

definition upper_letters :: string where
  "upper_letters = ''ABCDEFGHIJKLMNOPQRSTUVWXYZ''"

definition toUpperCaseChar :: "char \<Rightarrow> char" where
  "toUpperCaseChar c =
     (case map_of (zip lower_letters upper_letters) c of None \<Rightarrow> c | Some u \<Rightarrow> u)"

definition toLowerCaseChar :: "char \<Rightarrow> char" where
  "toLowerCaseChar c =
     (case map_of (zip upper_letters lower_letters) c of None \<Rightarrow> c | Some l \<Rightarrow> l)"

definition toUpperCase :: "string \<Rightarrow> string" where
  "toUpperCase s = map toUpperCaseChar s"

definition toLowerCase :: "string \<Rightarrow> string" where
  "toLowerCase s = map toLowerCaseChar s"

subsection \<open>The steps of the method chain\<close>

text \<open>\<^verbatim>\<open>.replace(/^\/api\//, '')\<close>\<close>

definition strip_api_prefix :: "string \<Rightarrow> string" where
  "strip_api_prefix path = (if take 5 path = ''/api/'' then drop 5 path else path)"

text \<open>\<^verbatim>\<open>.replace(/\//g, '_')\<close>\<close>

fun replace_slashes :: "string \<Rightarrow> string" where
  "replace_slashes [] = []"
| "replace_slashes (c # cs) =
     (if c = CHR ''/'' then CHR ''_'' # replace_slashes cs else c # replace_slashes cs)"

text \<open>\<^verbatim>\<open>.replace(/\{|\}/g, '')\<close>\<close>

fun remove_braces :: "string \<Rightarrow> string" where
  "remove_braces [] = []"
| "remove_braces (c # cs) =
     (if c = CHR ''{'' \<or> c = CHR ''}'' then remove_braces cs else c # remove_braces cs)"

text \<open>
  \<^verbatim>\<open>.split('_')\<close>: the empty string splits into one empty part, and a separator at
  either end or two in a row give empty parts.
\<close>

fun split_underscore :: "string \<Rightarrow> string list" where
  "split_underscore [] = [[]]"
| "split_underscore (c # cs) =
     (if c = CHR ''_'' then [] # split_underscore cs
      else (case split_underscore cs of
              [] \<Rightarrow> [[c]]
            | part # parts \<Rightarrow> (c # part) # parts))"

text \<open>\<^verbatim>\<open>part => part.charAt(0).toUpperCase() + part.slice(1)\<close>\<close>

definition upperFirst :: "string \<Rightarrow> string" where
  "upperFirst part = toUpperCase (take 1 part) @ drop 1 part"

text \<open>\<^verbatim>\<open>pathToFunctionName(path)\<close>, lines 235 to 243.\<close>

definition pathToFunctionName :: "string \<Rightarrow> string" where
  "pathToFunctionName path =
     join [] (map upperFirst
       (split_underscore (remove_braces (replace_slashes (strip_api_prefix path)))))"

text \<open>\<^verbatim>\<open>generateTypeName(path, suffix)\<close>, lines 220 to 230.\<close>

definition generateTypeName :: "string \<Rightarrow> string \<Rightarrow> string" where
  "generateTypeName path suffix' =
     (let parts = join [] (map upperFirst
            (split_underscore (remove_braces (replace_slashes (strip_api_prefix path)))))
      in parts @ suffix')"

subsection \<open>The derivation as the specification words it\<close>

text \<open>
  Splitting on a separator, by cutting at its first occurrence: the text before it is
  the first segment, the text after it is split in the same way.
\<close>

function spec_split :: "char \<Rightarrow> string \<Rightarrow> string list" where
  "spec_split sep s =
     (case dropWhile (\<lambda>c. c \<noteq> sep) s of
        [] \<Rightarrow> [s]
      | _ # rest \<Rightarrow> takeWhile (\<lambda>c. c \<noteq> sep) s # spec_split sep rest)"
  by pat_completeness auto
termination
proof (relation "measure (\<lambda>(sep, s). length s)")
  show "wf (measure (\<lambda>(sep, s). length s))" by simp
next
  fix sep :: char and s x rest
  assume "dropWhile (\<lambda>c. c \<noteq> sep) s = x # rest"
  then have "length (x # rest) \<le> length s"
    using length_dropWhile_le [of "\<lambda>c. c \<noteq> sep" s] by simp
  then show "((sep, rest), (sep, s)) \<in> measure (\<lambda>(sep, s). length s)" by simp
qed

declare spec_split.simps [simp del]

text \<open>
  The specification's algorithm: strip a leading \<^verbatim>\<open>/api/\<close>, replace every slash
  with the separator, strip the braces, split on the separator, upper-case the first
  character of each segment, concatenate.
\<close>

definition spec_title :: "string \<Rightarrow> string" where
  "spec_title seg = (case seg of [] \<Rightarrow> [] | c # cs \<Rightarrow> toUpperCaseChar c # cs)"

definition spec_fragment :: "string \<Rightarrow> string" where
  "spec_fragment path =
     (let stripped = (if prefix ''/api/'' path then drop (length ''/api/'') path else path);
          separated = map (\<lambda>c. if c = CHR ''/'' then CHR ''_'' else c) stripped;
          unbraced = filter (\<lambda>c. c \<notin> {CHR ''{'', CHR ''}''}) separated
      in concat (map spec_title (spec_split (CHR ''_'') unbraced)))"

section \<open>Serialising a sample value\<close>

text \<open>
  \<^verbatim>\<open>JSON.stringify(value, null, n)\<close> of the host language, on the values of type
  \<^typ>\<open>json\<close>: the gap is \<open>n\<close> spaces (at most ten), an empty array or object is
  printed without line breaks, an \<^verbatim>\<open>undefined\<close> array element is printed as
  \<^verbatim>\<open>null\<close>, an \<^verbatim>\<open>undefined\<close> property is left out, and the result for
  \<^verbatim>\<open>undefined\<close> itself is \<^verbatim>\<open>undefined\<close>, here \<open>None\<close>.
\<close>

definition dquote :: string where
  "dquote = [CHR 0x22]"

definition backslash :: string where
  "backslash = [CHR 0x5C]"

definition apostrophe :: string where
  "apostrophe = [CHR 0x27]"

definition digitChar :: "nat \<Rightarrow> char" where
  "digitChar d = ''0123456789abcdef'' ! (d mod 16)"

definition quoteJSONChar :: "char \<Rightarrow> string" where
  "quoteJSONChar c =
     (if c = CHR 0x08 then backslash @ ''b''
      else if c = CHR 0x09 then backslash @ ''t''
      else if c = CHR 0x0A then backslash @ ''n''
      else if c = CHR 0x0C then backslash @ ''f''
      else if c = CHR 0x0D then backslash @ ''r''
      else if c = CHR 0x22 then backslash @ dquote
      else if c = CHR 0x5C then backslash @ backslash
      else if (of_char c :: nat) < 32
        then backslash @ ''u00'' @ [digitChar (of_char c div 16), digitChar (of_char c)]
      else [c])"

definition quoteJSONString :: "string \<Rightarrow> string" where
  "quoteJSONString s = dquote @ concat (map quoteJSONChar s) @ dquote"

fun natToString :: "nat \<Rightarrow> string" where
  "natToString n =
     (if n < 10 then [digitChar n] else natToString (n div 10) @ [digitChar (n mod 10)])"

declare natToString.simps [simp del]

definition numberToString :: "int \<Rightarrow> string" where
  "numberToString i = (if i < 0 then ''-'' @ natToString (nat (- i)) else natToString (nat i))"

fun serializeJSON :: "string \<Rightarrow> string \<Rightarrow> json \<Rightarrow> string option" where
  "serializeJSON gap ind JUndefined = None"
| "serializeJSON gap ind JNull = Some ''null''"
| "serializeJSON gap ind (JBool b) = Some (if b then ''true'' else ''false'')"
| "serializeJSON gap ind (JNum n) = Some (numberToString n)"
| "serializeJSON gap ind (JStr s) = Some (quoteJSONString s)"
| "serializeJSON gap ind (JArr vs) =
     (let stepback = ind;
          ind' = ind @ gap;
          partial = map (\<lambda>v. case serializeJSON gap ind' v of
                                 None \<Rightarrow> ''null'' | Some t \<Rightarrow> t) vs
      in if partial = [] then Some ''[]''
         else if gap = [] then Some (''['' @ join '','' partial @ '']'')
         else Some (''['' @ nl @ ind' @ join ('','' @ nl @ ind') partial
                      @ nl @ stepback @ '']''))"
| "serializeJSON gap ind (JObj es) =
     (let stepback = ind;
          ind' = ind @ gap;
          partial = concat (map (\<lambda>(key, val). case serializeJSON gap ind' val of
                       None \<Rightarrow> []
                     | Some t \<Rightarrow> [quoteJSONString key @ '':''
                                    @ (if gap = [] then [] else '' '') @ t]) es)
      in if partial = [] then Some ''{}''
         else if gap = [] then Some (''{'' @ join '','' partial @ ''}'')
         else Some (''{'' @ nl @ ind' @ join ('','' @ nl @ ind') partial
                      @ nl @ stepback @ ''}''))"

definition JSON_stringify :: "json \<Rightarrow> nat \<Rightarrow> string option" where
  "JSON_stringify v n = serializeJSON (replicate (min n 10) CHR '' '') [] v"

text \<open>A value inside a template literal: \<^verbatim>\<open>undefined\<close> prints as its name.\<close>

definition interpolate :: "string option \<Rightarrow> string" where
  "interpolate t = (case t of None \<Rightarrow> ''undefined'' | Some s \<Rightarrow> s)"

section \<open>Endpoint descriptors\<close>

text \<open>
  One entry of \<^verbatim>\<open>spec.apis\<close>, destructured. \<open>method'\<close> (the field
  \<^verbatim>\<open>method\<close>) and \<open>path\<close> are strings: on anything else the source raises a
  \<^verbatim>\<open>TypeError\<close> at the first string operation, so such entries are outside this type;
  \<open>requestBody\<close> and \<open>response\<close> are \<^term>\<open>JUndefined\<close> when the entry does not
  have them; \<open>statusCode\<close> is \<open>None\<close> when the entry does not have it.
\<close>

record endpoint =
  method' :: string
  path :: string
  requestBody :: json
  response :: json
  statusCode :: "int option"

text \<open>The truth value of a sample in a condition, as in \<^verbatim>\<open>if (requestBody)\<close>.\<close>

fun truthy :: "json \<Rightarrow> bool" where
  "truthy JUndefined = False"
| "truthy JNull = False"
| "truthy (JBool b) = b"
| "truthy (JNum n) = (n \<noteq> 0)"
| "truthy (JStr s) = (s \<noteq> [])"
| "truthy (JArr vs) = True"
| "truthy (JObj es) = True"

text \<open>\<^verbatim>\<open>Array.isArray(value)\<close>\<close>

fun isArray :: "json \<Rightarrow> bool" where
  "isArray (JArr vs) = True"
| "isArray v = False"

section \<open>Mock handlers\<close>

text \<open>
  \<^verbatim>\<open>path.replace(/\{(\w+)\}/g, ':$1')\<close>: scanning from the left, a brace followed by
  the longest run of word characters and a closing brace becomes a colon and the run;
  any other character is kept.
\<close>

definition isWordChar :: "char \<Rightarrow> bool" where
  "isWordChar c = (c \<in> set (lower_letters @ upper_letters @ ''0123456789_''))"

function replaceParams :: "string \<Rightarrow> string" where
  "replaceParams [] = []"
| "replaceParams (c # cs) =
     (if c = CHR ''{'' then
        (case dropWhile isWordChar cs of
           [] \<Rightarrow> c # replaceParams cs
         | r # rest \<Rightarrow>
             if takeWhile isWordChar cs \<noteq> [] \<and> r = CHR ''}''
             then CHR '':'' # takeWhile isWordChar cs @ replaceParams rest
             else c # replaceParams cs)
      else c # replaceParams cs)"
  by pat_completeness auto
termination
proof (relation "measure length")
  show "wf (measure length)" by simp
next
  fix c :: char and cs
  show "(cs, c # cs) \<in> measure length" by simp
next
  fix c :: char and cs r rest
  assume "dropWhile isWordChar cs = r # rest"
  then have "length (r # rest) \<le> length cs"
    using length_dropWhile_le [of isWordChar cs] by simp
  then show "(rest, c # cs) \<in> measure length" by simp
next
  fix c :: char and cs
  show "(cs, c # cs) \<in> measure length" by simp
next
  fix c :: char and cs
  show "(cs, c # cs) \<in> measure length" by simp
qed

text \<open>\<^verbatim>\<open>path.includes(ch)\<close> for a one-character text.\<close>

definition includesChar :: "string \<Rightarrow> char \<Rightarrow> bool" where
  "includesChar s c = (c \<in> set s)"

text \<open>
  The callback of \<^verbatim>\<open>apis.map\<close> in \<^verbatim>\<open>generateHandlers\<close>, lines 61 to 100. It
  returns nothing (\<open>None\<close>) when the method is none of the five it tests for.
\<close>

definition handler :: "endpoint \<Rightarrow> string option" where
  "handler api =
     (let statusCode' = (case statusCode api of None \<Rightarrow> 200 | Some c \<Rightarrow> c);
          methodLower = toLowerCase (method' api);
          pathWithParams = replaceParams (path api)
      in if methodLower = ''get'' then
           (if includesChar (path api) CHR ''{'' \<or> includesChar (path api) CHR '':''
            then Some (''  // '' @ method' api @ '' '' @ path api @ nl
              @ ''  http.'' @ methodLower @ ''('' @ apostrophe @ pathWithParams @ apostrophe
              @ '', ({ params }) => {'' @ nl
              @ ''    return HttpResponse.json(''
              @ interpolate (JSON_stringify (response api) 2) @ '')'' @ nl
              @ ''  })'')
            else Some (''  // '' @ method' api @ '' '' @ path api @ nl
              @ ''  http.'' @ methodLower @ ''('' @ apostrophe @ path api @ apostrophe
              @ '', () => {'' @ nl
              @ ''    return HttpResponse.json(''
              @ interpolate (JSON_stringify (response api) 2) @ '')'' @ nl
              @ ''  })''))
         else if methodLower \<in> set [''post'', ''put'', ''patch''] then
           (let bodyType = (if truthy (requestBody api)
                            then ''as '' @ generateTypeName (path api) ''Request'' else [])
            in Some (''  // '' @ method' api @ '' '' @ path api @ nl
              @ ''  http.'' @ methodLower @ ''('' @ apostrophe @ pathWithParams @ apostrophe
              @ '', async ({ params, request }) => {'' @ nl
              @ ''    '' @ (if truthy (requestBody api)
                            then ''const body = await request.json() '' @ bodyType else [])
              @ nl
              @ ''    return HttpResponse.json('' @ nl
              @ ''      '' @ interpolate (JSON_stringify (response api) 6) @ '','' @ nl
              @ ''      { status: '' @ numberToString statusCode' @ '' }'' @ nl
              @ ''    )'' @ nl
              @ ''  })''))
         else if methodLower = ''delete'' then
           Some (''  // '' @ method' api @ '' '' @ path api @ nl
              @ ''  http.'' @ methodLower @ ''('' @ apostrophe @ pathWithParams @ apostrophe
              @ '', ({ params }) => {'' @ nl
              @ ''    return HttpResponse.json('' @ nl
              @ ''      '' @ interpolate (JSON_stringify (response api) 6) @ '','' @ nl
              @ ''      { status: '' @ numberToString statusCode' @ '' }'' @ nl
              @ ''    )'' @ nl
              @ ''  })'')
         else None)"

text \<open>
  \<^verbatim>\<open>generateHandlers(apis)\<close>, lines 58 to 107. \<^verbatim>\<open>join\<close> prints an element that
  is \<^verbatim>\<open>undefined\<close> as the empty text.
\<close>

definition generateHandlers :: "endpoint list \<Rightarrow> string" where
  "generateHandlers apis =
     (let imports = ''import { http, HttpResponse } from '' @ apostrophe @ ''msw'' @ apostrophe
                      @ nl @ nl;
          handlers = join ('','' @ nl @ nl)
                       (map (\<lambda>api. case handler api of None \<Rightarrow> [] | Some h \<Rightarrow> h) apis)
      in imports @ ''// Auto-generated handlers from API specification'' @ nl
           @ ''export const handlers = ['' @ nl
           @ handlers @ nl
           @ '']'' @ nl)"

section \<open>Type declarations\<close>

text \<open>
  The table \<^verbatim>\<open>types\<close> is a \<^verbatim>\<open>Map\<close>: its entries in insertion order.
  \<^verbatim>\<open>types.has(name)\<close> and \<^verbatim>\<open>types.set(name, value)\<close>: setting a new name
  appends an entry, setting a present name replaces its value in place.
\<close>

definition types_has :: "(string \<times> json) list \<Rightarrow> string \<Rightarrow> bool" where
  "types_has types name = (name \<in> set (map fst types))"

definition types_set :: "(string \<times> json) list \<Rightarrow> string \<Rightarrow> json \<Rightarrow> (string \<times> json) list" where
  "types_set types name v = AList.update name v types"

text \<open>The body of the first \<^verbatim>\<open>apis.forEach\<close> of \<^verbatim>\<open>generateTypes\<close>, lines 165 to 181.\<close>

definition registerTypes :: "(string \<times> json) list \<Rightarrow> endpoint \<Rightarrow> (string \<times> json) list" where
  "registerTypes types api =
     (let types1 =
            (if truthy (requestBody api)
                \<and> toLowerCase (method' api) \<in> set [''post'', ''put'', ''patch'']
             then (let requestTypeName = generateTypeName (path api) ''Request''
                   in if \<not> types_has types requestTypeName
                      then types_set types requestTypeName (requestBody api)
                      else types)
             else types);
          responseTypeName = generateTypeName (path api) ''Response''
      in if \<not> types_has types1 responseTypeName
         then types_set types1 responseTypeName (response api)
         else types1)"

text \<open>The body of \<^verbatim>\<open>types.forEach\<close>, lines 185 to 193.\<close>

definition appendDeclaration :: "string \<Rightarrow> string \<times> json \<Rightarrow> string" where
  "appendDeclaration typeDefinitions entry =
     (case entry of (typeName, v) \<Rightarrow>
        (let typeScript = jsonToTypeScript v 0
         in if isArray v
            then typeDefinitions @ ''export type '' @ typeName @ '' = '' @ typeScript @ nl @ nl
            else typeDefinitions @ ''export interface '' @ typeName @ '' '' @ typeScript
                   @ nl @ nl))"

text \<open>The body of the second \<^verbatim>\<open>apis.forEach\<close>, lines 199 to 210.\<close>

definition appendEndpoint :: "string \<Rightarrow> endpoint \<Rightarrow> string" where
  "appendEndpoint typeDefinitions api =
     (let requestTypeName = generateTypeName (path api) ''Request'';
          responseTypeName = generateTypeName (path api) ''Response'';
          functionName = pathToFunctionName (path api)
      in if truthy (requestBody api)
         then typeDefinitions @ ''  '' @ toLowerCase (method' api) @ functionName
                @ '': (body: '' @ requestTypeName @ '') => Promise<'' @ responseTypeName
                @ ''>'' @ nl
         else typeDefinitions @ ''  '' @ toLowerCase (method' api) @ functionName
                @ '': () => Promise<'' @ responseTypeName @ ''>'' @ nl)"

text \<open>\<^verbatim>\<open>generateTypes(apis)\<close>, lines 162 to 215.\<close>

definition generateTypes :: "endpoint list \<Rightarrow> string" where
  "generateTypes apis =
     (let types = foldl registerTypes [] apis;
          td0 = ''// Auto-generated TypeScript types from API specification'' @ nl @ nl;
          td1 = foldl appendDeclaration td0 types;
          td2 = td1 @ ''// API function types'' @ nl;
          td3 = td2 @ ''export interface ApiEndpoints {'' @ nl;
          td4 = foldl appendEndpoint td3 apis
      in td4 @ ''}'' @ nl)"

section \<open>The run\<close>

text \<open>
  \<^verbatim>\<open>main\<close>, lines 256 to 282, from the parsed specification on: \<open>None\<close> stands for
  a specification whose \<^verbatim>\<open>apis\<close> is missing or is not an array, which is the one
  check made before the two documents are generated. The result is the error or the
  texts of \<^verbatim>\<open>handlers.ts\<close> and \<^verbatim>\<open>api.d.ts\<close>.
\<close>

datatype failure = InvalidSpecificationFormat

definition main :: "endpoint list option \<Rightarrow> failure + string \<times> string" where
  "main spec_apis =
     (case spec_apis of
        None \<Rightarrow> Inl InvalidSpecificationFormat
      | Some apis \<Rightarrow>
          (let handlersCode = generateHandlers apis;
               typesCode = generateTypes apis
           in Inr (handlersCode, typesCode)))"

section \<open>The shape of a sample\<close>

text \<open>
  What two samples must share to be structurally the same: the kind of the value, for an
  object its keys in their order with the shape of each value, for an array the shapes of
  its elements. The values of strings, numbers and booleans are not part of it.
\<close>

datatype shape =
    SNull
  | SBool
  | SNum
  | SStr
  | SArr "shape list"
  | SObj "(string \<times> shape) list"
  | SUndefined

fun shape_of :: "json \<Rightarrow> shape" where
  "shape_of JNull = SNull"
| "shape_of (JBool b) = SBool"
| "shape_of (JNum n) = SNum"
| "shape_of (JStr s) = SStr"
| "shape_of (JArr vs) = SArr (map shape_of vs)"
| "shape_of (JObj es) = SObj (map (\<lambda>(key, val). (key, shape_of val)) es)"
| "shape_of JUndefined = SUndefined"

section \<open>Properties of the type inferencer\<close>

text \<open>
  Claim C1. A non-empty array is given the array type of its first element alone: the
  result is the first element's type followed by \<^verbatim>\<open>[]\<close>, in parentheses unless it
  is a record type, and it is the same whatever the later elements are; so
  \<^verbatim>\<open>[1,2,"x"]\<close> is an array of number. The empty array is given the generic array
  type \<^verbatim>\<open>any[]\<close>.
\<close>

theorem array_first_element_only:
  "jsonToTypeScript (JArr []) indent = ''any[]''
   \<and> jsonToTypeScript (JArr (v # vs)) indent =
       (if startsWithBrace (jsonToTypeScript v indent)
        then jsonToTypeScript v indent @ ''[]''
        else ''('' @ jsonToTypeScript v indent @ '')[]'')
   \<and> jsonToTypeScript (JArr (v # vs)) indent = jsonToTypeScript (JArr [v]) indent
   \<and> jsonToTypeScript (JArr [JNum 1, JNum 2, JStr ''x'']) 0 = ''(number)[]''"
  by (simp add: Let_def)

theorem array_first_element_only_witness:
  "jsonToTypeScript (JArr [JBool True, JNull, JObj []]) 1 = ''(boolean)[]''
   \<and> jsonToTypeScript (JArr [JBool True, JNull, JObj []]) 1
       = jsonToTypeScript (JArr [JBool True]) 1"
  using array_first_element_only [of 1 "JBool True" "[JNull, JObj []]"]
  by simp

text \<open>
  Claim C7. The empty object is given the open mapping type
  \<^verbatim>\<open>Record<string, any>\<close>; a non-empty object is given a record with one field
  line per entry, in the order of the entries, each field typed by the inferencer at
  one more level of nesting; so \<^verbatim>\<open>{"a":1,"b":"x"}\<close> has the field
  \<^verbatim>\<open>a: number\<close> and then the field \<^verbatim>\<open>b: string\<close>.
\<close>

theorem object_fields_in_order:
  "jsonToTypeScript (JObj []) indent = ''Record<string, any>''
   \<and> jsonToTypeScript (JObj (e # es)) indent =
       ''{'' @ nl
       @ join nl (map (\<lambda>(key, val). repeat_spaces indent @ ''  '' @ key @ '': ''
                          @ jsonToTypeScript val (indent + 1)) (e # es))
       @ nl @ repeat_spaces indent @ ''}''
   \<and> jsonToTypeScript (JObj [(''a'', JNum 1), (''b'', JStr ''x'')]) 0
       = ''{'' @ nl @ ''  a: number'' @ nl @ ''  b: string'' @ nl @ ''}''"
  by (simp add: Let_def repeat_spaces_def)

theorem object_fields_in_order_witness:
  "jsonToTypeScript (JObj [(''b'', JObj [(''c'', JNull)]), (''a'', JArr [])]) 0
     = ''{'' @ nl @ ''  b: {'' @ nl @ ''    c: null'' @ nl @ ''  }'' @ nl
       @ ''  a: any[]'' @ nl @ ''}''"
  using object_fields_in_order [of 0 "(''b'', JObj [(''c'', JNull)])" "[(''a'', JArr [])]"]
  by (simp add: repeat_spaces_def)

subsection \<open>Only the shape matters\<close>

lemma fields_same_shape:
  assumes "\<And>e v b i. e \<in> set es \<Longrightarrow> v \<in> Basic_BNFs.snds e \<Longrightarrow> shape_of v = shape_of b
             \<Longrightarrow> jsonToTypeScript v i = jsonToTypeScript b i"
    and "map (\<lambda>(key, val). (key, shape_of val)) es = map (\<lambda>(key, val). (key, shape_of val)) fs"
  shows "map (\<lambda>(key, val). pre @ key @ '': '' @ jsonToTypeScript val i) es
       = map (\<lambda>(key, val). pre @ key @ '': '' @ jsonToTypeScript val i) fs"
  using assms
proof (induction es arbitrary: fs)
  case Nil
  then show ?case by simp
next
  case (Cons e es)
  then obtain f fs' where fs: "fs = f # fs'" by (cases fs) auto
  obtain k v where e: "e = (k, v)" by (cases e)
  obtain k' v' where f: "f = (k', v')" by (cases f)
  from Cons.prems(2) fs e f have k: "k = k'" and sh: "shape_of v = shape_of v'"
    and rest: "map (\<lambda>(key, val). (key, shape_of val)) es
             = map (\<lambda>(key, val). (key, shape_of val)) fs'"
    by simp_all
  have "jsonToTypeScript v i = jsonToTypeScript v' i"
    using Cons.prems(1) [of e v v' i] e sh by simp
  moreover have "map (\<lambda>(key, val). pre @ key @ '': '' @ jsonToTypeScript val i) es
       = map (\<lambda>(key, val). pre @ key @ '': '' @ jsonToTypeScript val i) fs'"
  proof (rule Cons.IH [OF _ rest])
    fix e' w b' j
    assume "e' \<in> set es" "w \<in> Basic_BNFs.snds e'" "shape_of w = shape_of b'"
    then show "jsonToTypeScript w j = jsonToTypeScript b' j"
      using Cons.prems(1) [of e' w b' j] by simp
  qed
  ultimately show ?case using fs e f k by simp
qed

lemma jsonToTypeScript_shape:
  "shape_of a = shape_of b \<Longrightarrow> jsonToTypeScript a i = jsonToTypeScript b i"
proof (induction a arbitrary: b i)
  case JNull
  then show ?case by (cases b) simp_all
next
  case (JBool x)
  then show ?case by (cases b) simp_all
next
  case (JNum x)
  then show ?case by (cases b) simp_all
next
  case (JStr x)
  then show ?case by (cases b) simp_all
next
  case (JArr xs)
  from JArr.prems obtain ys where b: "b = JArr ys" and m: "map shape_of xs = map shape_of ys"
    by (cases b) simp_all
  show ?case
  proof (cases xs)
    case Nil
    with m b show ?thesis by simp
  next
    case (Cons x xs')
    with m obtain y ys' where ys: "ys = y # ys'" and "shape_of x = shape_of y"
      by (cases ys) auto
    then have "jsonToTypeScript x i = jsonToTypeScript y i"
      using JArr.IH [of x y i] Cons by simp
    with b ys Cons show ?thesis by simp
  qed
next
  case (JObj es)
  from JObj.prems obtain fs where b: "b = JObj fs"
    and m: "map (\<lambda>(key, val). (key, shape_of val)) es
          = map (\<lambda>(key, val). (key, shape_of val)) fs"
    by (cases b) simp_all
  have props: "map (\<lambda>(key, val). (repeat_spaces i @ ''  '') @ key @ '': ''
                       @ jsonToTypeScript val (i + 1)) es
       = map (\<lambda>(key, val). (repeat_spaces i @ ''  '') @ key @ '': ''
                       @ jsonToTypeScript val (i + 1)) fs"
    by (rule fields_same_shape [OF _ m]) (rule JObj.IH)
  show ?case
  proof (cases es)
    case Nil
    with m b show ?thesis by simp
  next
    case (Cons e es')
    with m obtain f fs' where fs: "fs = f # fs'" by (cases fs) auto
    from props show ?thesis unfolding b fs Cons by (simp add: Let_def)
  qed
next
  case JUndefined
  then show ?case by (cases b) simp_all
qed

text \<open>
  Claim C9. Two samples of the same shape (the same kinds, the same keys in the same
  order, the same shapes of array elements) are given the same type at every nesting
  depth, whatever their numbers, strings and booleans are.
\<close>

theorem inference_depends_on_shape_only:
  "shape_of a = shape_of b \<Longrightarrow> jsonToTypeScript a i = jsonToTypeScript b i"
  by (rule jsonToTypeScript_shape)

theorem inference_depends_on_shape_only_witness:
  "shape_of (JArr [JObj [(''id'', JNum 1), (''name'', JStr ''a'')], JNull])
     = shape_of (JArr [JObj [(''id'', JNum (-40)), (''name'', JStr ''Zed Q'')], JNull])
   \<and> jsonToTypeScript (JArr [JObj [(''id'', JNum 1), (''name'', JStr ''a'')], JNull]) 0
     = jsonToTypeScript (JArr [JObj [(''id'', JNum (-40)), (''name'', JStr ''Zed Q'')], JNull]) 0"
proof -
  have h: "shape_of (JArr [JObj [(''id'', JNum 1), (''name'', JStr ''a'')], JNull])
     = shape_of (JArr [JObj [(''id'', JNum (-40)), (''name'', JStr ''Zed Q'')], JNull])"
    by simp
  show ?thesis using h inference_depends_on_shape_only [OF h, of 0] by simp
qed

section \<open>Properties of the name deriver\<close>

lemma replace_slashes_map:
  "replace_slashes s = map (\<lambda>c. if c = CHR ''/'' then CHR ''_'' else c) s"
  by (induction s) simp_all

lemma remove_braces_filter:
  "remove_braces s = filter (\<lambda>c. c \<notin> {CHR ''{'', CHR ''}''}) s"
  by (induction s) simp_all

lemma spec_split_Nil: "spec_split sep [] = [[]]"
  by (subst spec_split.simps) simp

lemma spec_split_Cons:
  "spec_split sep (c # cs) =
     (if c = sep then [] # spec_split sep cs
      else (case spec_split sep cs of [] \<Rightarrow> [[c]] | part # parts \<Rightarrow> (c # part) # parts))"
proof (cases "c = sep")
  case True
  then show ?thesis by (subst spec_split.simps) simp
next
  case False
  show ?thesis
  proof (cases "dropWhile (\<lambda>x. x \<noteq> sep) cs")
    case Nil
    then have "spec_split sep cs = [cs]"
      by (subst spec_split.simps) (simp del: dropWhile_eq_Nil_conv)
    moreover from Nil False have "spec_split sep (c # cs) = [c # cs]"
      by (subst spec_split.simps) (simp del: dropWhile_eq_Nil_conv)
    ultimately show ?thesis using False by simp
  next
    case (Cons x rest)
    then have "spec_split sep cs = takeWhile (\<lambda>x. x \<noteq> sep) cs # spec_split sep rest"
      by (subst spec_split.simps) simp
    moreover from Cons False have
      "spec_split sep (c # cs) = (c # takeWhile (\<lambda>x. x \<noteq> sep) cs) # spec_split sep rest"
      by (subst spec_split.simps) simp
    ultimately show ?thesis using False by simp
  qed
qed

lemma split_underscore_spec: "split_underscore s = spec_split (CHR ''_'') s"
  by (induction s) (simp_all add: spec_split_Nil spec_split_Cons)

lemma upperFirst_spec: "upperFirst part = spec_title part"
  by (cases part) (simp_all add: upperFirst_def spec_title_def toUpperCase_def)

lemma join_empty_concat: "join [] xs = concat xs"
  by (induction "[] :: string" xs rule: join.induct) simp_all

lemma strip_api_prefix_spec:
  "strip_api_prefix p =
     (if prefix ''/api/'' p then drop (length ''/api/'') p else p)"
proof -
  have "(take 5 p = ''/api/'') = prefix ''/api/'' p"
  proof
    assume "take 5 p = ''/api/''"
    then have "p = ''/api/'' @ drop 5 p"
      using append_take_drop_id [of 5 p] by simp
    then show "prefix ''/api/'' p" by (metis prefixI)
  next
    assume "prefix ''/api/'' p"
    then obtain r where "p = ''/api/'' @ r" by (auto simp: prefix_def)
    then show "take 5 p = ''/api/''" by simp
  qed
  then show ?thesis by (simp add: strip_api_prefix_def eval_nat_numeral)
qed

lemma pathToFunctionName_spec: "pathToFunctionName p = spec_fragment p"
  unfolding pathToFunctionName_def spec_fragment_def Let_def
  by (simp only: join_empty_concat split_underscore_spec remove_braces_filter
      replace_slashes_map strip_api_prefix_spec upperFirst_spec [abs_def])

lemma generateTypeName_fragment:
  "generateTypeName p sfx = pathToFunctionName p @ sfx"
  by (simp add: generateTypeName_def pathToFunctionName_def)

text \<open>
  Claim C2. The fragment that the source derives from a path is the one that the
  specification's algorithm gives (strip a leading \<^verbatim>\<open>/api/\<close>, turn slashes into
  separators, drop braces, split, upper-case the first character of each segment,
  concatenate), a type name is that fragment followed by the suffix, and
  \<^verbatim>\<open>/api/users\<close> gives \<^verbatim>\<open>Users\<close>, \<^verbatim>\<open>/api/users/{id}\<close> gives
  \<^verbatim>\<open>UsersId\<close>.
\<close>

theorem name_fragment_follows_spec:
  "pathToFunctionName p = spec_fragment p
   \<and> generateTypeName p sfx = spec_fragment p @ sfx
   \<and> pathToFunctionName ''/api/users'' = ''Users''
   \<and> pathToFunctionName ''/api/users/{id}'' = ''UsersId''"
proof -
  have "pathToFunctionName ''/api/users'' = ''Users''" by code_simp
  moreover have "pathToFunctionName ''/api/users/{id}'' = ''UsersId''" by code_simp
  ultimately show ?thesis
    by (simp add: generateTypeName_fragment pathToFunctionName_spec)
qed

theorem name_fragment_follows_spec_witness:
  "pathToFunctionName ''/api/users/{id}/posts/{postId}'' = ''UsersIdPostsPostId''
   \<and> generateTypeName ''/api/users/{id}/posts/{postId}'' ''Response''
       = ''UsersIdPostsPostIdResponse''"
proof -
  have "spec_fragment ''/api/users/{id}/posts/{postId}'' = ''UsersIdPostsPostId''"
    by code_simp
  then show ?thesis
    using name_fragment_follows_spec
      [of "''/api/users/{id}/posts/{postId}''" "''Response''"]
    by simp
qed

subsection \<open>Paths with nothing after the prefix\<close>

lemma strip_api_prefix_empty: "strip_api_prefix p = [] \<longleftrightarrow> p = ''/api/'' \<or> p = []"
proof
  assume h: "strip_api_prefix p = []"
  show "p = ''/api/'' \<or> p = []"
  proof (cases "take 5 p = ''/api/''")
    case True
    with h have "drop 5 p = []" by (simp add: strip_api_prefix_def)
    with True have "p = ''/api/''" using append_take_drop_id [of 5 p] by simp
    then show ?thesis by simp
  next
    case False
    with h show ?thesis by (simp add: strip_api_prefix_def)
  qed
next
  assume "p = ''/api/'' \<or> p = []"
  then show "strip_api_prefix p = []" by (auto simp: strip_api_prefix_def)
qed

text \<open>
  Claim C6, as amended. A path has nothing left after the prefix is stripped exactly when
  it is \<^verbatim>\<open>/api/\<close> or the empty path; for such a path the fragment is empty and
  the type names are exactly \<^verbatim>\<open>Request\<close> and \<^verbatim>\<open>Response\<close>, without any
  error.
\<close>

theorem empty_path_empty_fragment:
  "(strip_api_prefix p = [] \<longleftrightarrow> p = ''/api/'' \<or> p = [])
   \<and> (strip_api_prefix p = [] \<longrightarrow>
        pathToFunctionName p = []
        \<and> generateTypeName p ''Request'' = ''Request''
        \<and> generateTypeName p ''Response'' = ''Response'')"
proof -
  have "pathToFunctionName p = []" if "strip_api_prefix p = []"
    using that by (simp add: pathToFunctionName_def upperFirst_def toUpperCase_def)
  then show ?thesis
    using strip_api_prefix_empty [of p] by (simp add: generateTypeName_fragment)
qed

theorem empty_path_empty_fragment_witness:
  "strip_api_prefix ''/api/'' = []
   \<and> pathToFunctionName ''/api/'' = []
   \<and> generateTypeName ''/api/'' ''Request'' = ''Request''
   \<and> generateTypeName ''/api/'' ''Response'' = ''Response''"
proof -
  have h: "strip_api_prefix ''/api/'' = []" by (simp add: strip_api_prefix_def)
  from empty_path_empty_fragment [of "''/api/''"] h show ?thesis by blast
qed

text \<open>
  The path \<^verbatim>\<open>/api\<close> is not among them: the prefix pattern ends with a slash, so
  nothing is stripped, the leading slash becomes a separator, and the fragment is
  \<^verbatim>\<open>Api\<close>.
\<close>

theorem api_without_slash_counterexample:
  "pathToFunctionName ''/api'' = ''Api''
   \<and> pathToFunctionName ''/api'' \<noteq> []
   \<and> generateTypeName ''/api'' ''Request'' = ''ApiRequest''
   \<and> generateTypeName ''/api'' ''Response'' = ''ApiResponse''"
  by code_simp

section \<open>Properties of the type table\<close>

lemma types_has_map_of: "types_has types n \<longleftrightarrow> map_of types n \<noteq> None"
  by (simp add: types_has_def map_of_eq_None_iff)

lemma map_of_types_set: "map_of (types_set types k v) = (map_of types)(k \<mapsto> v)"
  by (simp add: types_set_def update_conv')

lemma distinct_types_set:
  "distinct (map fst types) \<Longrightarrow> distinct (map fst (types_set types k v))"
  by (simp add: types_set_def distinct_update)

lemma request_name_not_response_name:
  "generateTypeName p ''Request'' \<noteq> generateTypeName q ''Response''"
proof
  assume "generateTypeName p ''Request'' = generateTypeName q ''Response''"
  then have "last (pathToFunctionName p @ ''Request'') = last (pathToFunctionName q @ ''Response'')"
    by (simp add: generateTypeName_fragment)
  then show False by simp
qed

lemma registerTypes_stable:
  "types_has types n \<Longrightarrow> map_of (registerTypes types api) n = map_of types n"
  by (auto simp: registerTypes_def Let_def map_of_types_set types_has_map_of)

lemma registerTypes_keeps:
  "types_has types n \<Longrightarrow> types_has (registerTypes types api) n"
  by (auto simp: registerTypes_def Let_def types_has_map_of map_of_types_set)

lemma registerTypes_distinct:
  "distinct (map fst types) \<Longrightarrow> distinct (map fst (registerTypes types api))"
  by (simp add: registerTypes_def Let_def distinct_types_set)

lemma registerTypes_response_present:
  "types_has (registerTypes types api) (generateTypeName (path api) ''Response'')"
  by (auto simp: registerTypes_def Let_def types_has_map_of map_of_types_set)

lemma registerTypes_response_first:
  "\<not> types_has types (generateTypeName (path api) ''Response'') \<Longrightarrow>
   map_of (registerTypes types api) (generateTypeName (path api) ''Response'') = Some (response api)"
  using request_name_not_response_name [of "path api" "path api"]
  by (auto simp: registerTypes_def Let_def types_has_map_of map_of_types_set)

lemma registerTypes_request_first:
  "truthy (requestBody api) \<Longrightarrow>
   toLowerCase (method' api) \<in> set [''post'', ''put'', ''patch''] \<Longrightarrow>
   \<not> types_has types (generateTypeName (path api) ''Request'') \<Longrightarrow>
   map_of (registerTypes types api) (generateTypeName (path api) ''Request'') = Some (requestBody api)"
  using request_name_not_response_name [of "path api" "path api"]
  by (auto simp: registerTypes_def Let_def types_has_map_of map_of_types_set)

lemma registerTypes_new_key:
  "types_has (registerTypes types api) n \<Longrightarrow> \<not> types_has types n \<Longrightarrow>
   n = generateTypeName (path api) ''Response''
   \<or> (n = generateTypeName (path api) ''Request'' \<and> truthy (requestBody api)
      \<and> toLowerCase (method' api) \<in> set [''post'', ''put'', ''patch''])"
  by (auto simp: registerTypes_def Let_def types_has_map_of map_of_types_set split: if_splits)

lemma foldl_registerTypes_stable:
  "types_has types n \<Longrightarrow> map_of (foldl registerTypes types apis) n = map_of types n"
proof (induction apis arbitrary: types)
  case Nil
  then show ?case by simp
next
  case (Cons a apis)
  then show ?case
    using registerTypes_keeps [of types n a] registerTypes_stable [of types n a] by simp
qed

lemma foldl_registerTypes_keeps:
  "types_has types n \<Longrightarrow> types_has (foldl registerTypes types apis) n"
  using foldl_registerTypes_stable [of types n apis] by (simp add: types_has_map_of)

lemma foldl_registerTypes_distinct:
  "distinct (map fst types) \<Longrightarrow> distinct (map fst (foldl registerTypes types apis))"
  by (induction apis arbitrary: types) (simp_all add: registerTypes_distinct)

lemma foldl_registerTypes_new_key:
  "types_has (foldl registerTypes types apis) n \<Longrightarrow> \<not> types_has types n \<Longrightarrow>
   \<exists>a\<in>set apis. n = generateTypeName (path a) ''Response''
     \<or> (n = generateTypeName (path a) ''Request'' \<and> truthy (requestBody a)
        \<and> toLowerCase (method' a) \<in> set [''post'', ''put'', ''patch''])"
proof (induction apis arbitrary: types)
  case Nil
  then show ?case by simp
next
  case (Cons a apis)
  show ?case
  proof (cases "types_has (registerTypes types a) n")
    case True
    then show ?thesis using registerTypes_new_key [OF True Cons.prems(2)] by auto
  next
    case False
    then show ?thesis using Cons.IH [of "registerTypes types a"] Cons.prems(1) by auto
  qed
qed

lemma response_first_wins:
  assumes "\<forall>a\<in>set pre. generateTypeName (path a) ''Response''
              \<noteq> generateTypeName (path b) ''Response''"
  shows "map_of (foldl registerTypes [] (pre @ b # post)) (generateTypeName (path b) ''Response'')
         = Some (response b)"
proof -
  let ?n = "generateTypeName (path b) ''Response''"
  have "\<not> types_has (foldl registerTypes [] pre) ?n"
  proof
    assume h: "types_has (foldl registerTypes [] pre) ?n"
    have "\<not> types_has [] ?n" by (simp add: types_has_def)
    from foldl_registerTypes_new_key [OF h this] assms
    show False using request_name_not_response_name [of _ "path b"] by metis
  qed
  then have "map_of (registerTypes (foldl registerTypes [] pre) b) ?n = Some (response b)"
    by (rule registerTypes_response_first)
  moreover have "types_has (registerTypes (foldl registerTypes [] pre) b) ?n"
    by (rule registerTypes_response_present)
  ultimately show ?thesis
    using foldl_registerTypes_stable
      [of "registerTypes (foldl registerTypes [] pre) b" ?n post]
    by simp
qed

lemma request_first_wins:
  assumes "truthy (requestBody b)"
    and "toLowerCase (method' b) \<in> set [''post'', ''put'', ''patch'']"
    and "\<forall>a\<in>set pre. truthy (requestBody a)
            \<and> toLowerCase (method' a) \<in> set [''post'', ''put'', ''patch'']
          \<longrightarrow> generateTypeName (path a) ''Request'' \<noteq> generateTypeName (path b) ''Request''"
  shows "map_of (foldl registerTypes [] (pre @ b # post)) (generateTypeName (path b) ''Request'')
         = Some (requestBody b)"
proof -
  let ?n = "generateTypeName (path b) ''Request''"
  have "\<not> types_has (foldl registerTypes [] pre) ?n"
  proof
    assume h: "types_has (foldl registerTypes [] pre) ?n"
    have "\<not> types_has [] ?n" by (simp add: types_has_def)
    from foldl_registerTypes_new_key [OF h this] assms(3)
    show False using request_name_not_response_name [of "path b"] by metis
  qed
  then have v: "map_of (registerTypes (foldl registerTypes [] pre) b) ?n = Some (requestBody b)"
    using assms(1,2) by (simp add: registerTypes_request_first)
  then have "types_has (registerTypes (foldl registerTypes [] pre) b) ?n"
    by (simp add: types_has_map_of)
  with v show ?thesis
    using foldl_registerTypes_stable
      [of "registerTypes (foldl registerTypes [] pre) b" ?n post]
    by simp
qed

lemma foldl_appendDeclaration:
  "foldl appendDeclaration td types = td @ concat (map (appendDeclaration []) types)"
  by (induction types arbitrary: td) (auto simp: appendDeclaration_def Let_def)

lemma foldl_appendEndpoint:
  "foldl appendEndpoint td apis = td @ concat (map (appendEndpoint []) apis)"
  by (induction apis arbitrary: td) (auto simp: appendEndpoint_def Let_def)

lemma registerTypes_request_untouched:
  "\<not> (truthy (requestBody api)
       \<and> toLowerCase (method' api) \<in> set [''post'', ''put'', ''patch'']) \<Longrightarrow>
   map_of (registerTypes types api) (generateTypeName (path api) ''Request'')
     = map_of types (generateTypeName (path api) ''Request'')"
  using request_name_not_response_name [of "path api" "path api"]
  by (auto simp: registerTypes_def Let_def map_of_types_set)

lemma declaration_in_document:
  assumes "map_of (foldl registerTypes [] apis) n = Some v"
  shows "\<exists>before after. generateTypes apis = before @ appendDeclaration [] (n, v) @ after"
proof -
  from assms have "(n, v) \<in> set (foldl registerTypes [] apis)" by (rule map_of_SomeD)
  then obtain xs ys where "foldl registerTypes [] apis = xs @ (n, v) # ys"
    by (auto dest: split_list)
  then have "generateTypes apis =
      (''// Auto-generated TypeScript types from API specification'' @ nl @ nl
         @ concat (map (appendDeclaration []) xs))
      @ appendDeclaration [] (n, v)
      @ (concat (map (appendDeclaration []) ys) @ ''// API function types'' @ nl
         @ ''export interface ApiEndpoints {'' @ nl
         @ concat (map (appendEndpoint []) apis) @ ''}'' @ nl)"
    by (simp add: generateTypes_def Let_def foldl_appendDeclaration foldl_appendEndpoint)
  then show ?thesis by blast
qed

text \<open>
  Claim C3, as amended. The table is keyed by derived name and the first write wins: a
  name that is in the table keeps its binding through every later endpoint; the response
  name of an endpoint is bound to the response of the first endpoint of the list that
  derives it, whatever follows; the request name is bound to the request body of the
  first endpoint that registers it, which an endpoint does only when its
  \<^verbatim>\<open>requestBody\<close> is truthy and its method is POST, PUT or PATCH; and no name is
  in the table twice.
\<close>

theorem type_table_first_write_wins:
  "(types_has types n \<longrightarrow> map_of (foldl registerTypes types apis) n = map_of types n)
   \<and> ((\<forall>a\<in>set pre. generateTypeName (path a) ''Response''
                       \<noteq> generateTypeName (path b) ''Response'')
        \<longrightarrow> map_of (foldl registerTypes [] (pre @ b # post))
              (generateTypeName (path b) ''Response'') = Some (response b))
   \<and> (truthy (requestBody b)
        \<and> toLowerCase (method' b) \<in> set [''post'', ''put'', ''patch'']
        \<and> (\<forall>a\<in>set pre. truthy (requestBody a)
                \<and> toLowerCase (method' a) \<in> set [''post'', ''put'', ''patch'']
              \<longrightarrow> generateTypeName (path a) ''Request''
                    \<noteq> generateTypeName (path b) ''Request'')
        \<longrightarrow> map_of (foldl registerTypes [] (pre @ b # post))
              (generateTypeName (path b) ''Request'') = Some (requestBody b))
   \<and> distinct (map fst (foldl registerTypes [] apis))"
proof (intro conjI impI)
  assume "types_has types n"
  then show "map_of (foldl registerTypes types apis) n = map_of types n"
    by (rule foldl_registerTypes_stable)
next
  assume "\<forall>a\<in>set pre. generateTypeName (path a) ''Response''
                       \<noteq> generateTypeName (path b) ''Response''"
  then show "map_of (foldl registerTypes [] (pre @ b # post))
              (generateTypeName (path b) ''Response'') = Some (response b)"
    by (rule response_first_wins)
next
  assume "truthy (requestBody b)
        \<and> toLowerCase (method' b) \<in> set [''post'', ''put'', ''patch'']
        \<and> (\<forall>a\<in>set pre. truthy (requestBody a)
                \<and> toLowerCase (method' a) \<in> set [''post'', ''put'', ''patch'']
              \<longrightarrow> generateTypeName (path a) ''Request''
                    \<noteq> generateTypeName (path b) ''Request'')"
  then show "map_of (foldl registerTypes [] (pre @ b # post))
              (generateTypeName (path b) ''Request'') = Some (requestBody b)"
    using request_first_wins [of b pre post] by blast
next
  show "distinct (map fst (foldl registerTypes [] apis))"
    by (rule foldl_registerTypes_distinct) simp
qed

theorem type_table_first_write_wins_witness:
  "types_has [(''UsersResponse'', JNull)] ''UsersResponse''
   \<and> map_of (foldl registerTypes [(''UsersResponse'', JNull)]
        [\<lparr>method' = ''GET'', path = ''/api/users'', requestBody = JUndefined,
           response = JArr [JObj [(''id'', JNum 1)]], statusCode = None\<rparr>]) ''UsersResponse''
       = Some JNull
   \<and> map_of (foldl registerTypes []
        [\<lparr>method' = ''GET'', path = ''/api/users'', requestBody = JUndefined,
           response = JArr [JObj [(''id'', JNum 1)]], statusCode = None\<rparr>,
         \<lparr>method' = ''POST'', path = ''/api/users'', requestBody = JObj [(''name'', JStr ''x'')],
           response = JObj [(''id'', JNum 1)], statusCode = None\<rparr>,
         \<lparr>method' = ''put'', path = ''/api/users'', requestBody = JObj [(''age'', JNum 3)],
           response = JNull, statusCode = None\<rparr>]) ''UsersResponse''
       = Some (JArr [JObj [(''id'', JNum 1)]])
   \<and> map_of (foldl registerTypes []
        [\<lparr>method' = ''GET'', path = ''/api/users'', requestBody = JUndefined,
           response = JArr [JObj [(''id'', JNum 1)]], statusCode = None\<rparr>,
         \<lparr>method' = ''POST'', path = ''/api/users'', requestBody = JObj [(''name'', JStr ''x'')],
           response = JObj [(''id'', JNum 1)], statusCode = None\<rparr>,
         \<lparr>method' = ''put'', path = ''/api/users'', requestBody = JObj [(''age'', JNum 3)],
           response = JNull, statusCode = None\<rparr>]) ''UsersRequest''
       = Some (JObj [(''name'', JStr ''x'')])"
proof -
  let ?e1 = "\<lparr>method' = ''GET'', path = ''/api/users'', requestBody = JUndefined,
           response = JArr [JObj [(''id'', JNum 1)]], statusCode = None\<rparr>"
  let ?e2 = "\<lparr>method' = ''POST'', path = ''/api/users'', requestBody = JObj [(''name'', JStr ''x'')],
           response = JObj [(''id'', JNum 1)], statusCode = None\<rparr>"
  let ?e3 = "\<lparr>method' = ''put'', path = ''/api/users'', requestBody = JObj [(''age'', JNum 3)],
           response = JNull, statusCode = None\<rparr>"
  have n: "generateTypeName ''/api/users'' ''Response'' = ''UsersResponse''"
    "generateTypeName ''/api/users'' ''Request'' = ''UsersRequest''"
    by code_simp+
  have h0: "types_has [(''UsersResponse'', JNull)] ''UsersResponse''"
    by (simp add: types_has_def)
  have h1: "\<forall>a\<in>set ([] :: endpoint list). generateTypeName (path a) ''Response''
                \<noteq> generateTypeName (path ?e1) ''Response''"
    by simp
  have h2: "truthy (requestBody ?e2)
        \<and> toLowerCase (method' ?e2) \<in> set [''post'', ''put'', ''patch'']
        \<and> (\<forall>a\<in>set [?e1]. truthy (requestBody a)
                \<and> toLowerCase (method' a) \<in> set [''post'', ''put'', ''patch'']
              \<longrightarrow> generateTypeName (path a) ''Request''
                    \<noteq> generateTypeName (path ?e2) ''Request'')"
    by code_simp
  from type_table_first_write_wins
         [of "[(''UsersResponse'', JNull)]" "''UsersResponse''" "[?e1]" "[]" ?e1 "[?e2, ?e3]"]
       h0 h1
  have "map_of (foldl registerTypes [(''UsersResponse'', JNull)] [?e1]) ''UsersResponse''
          = map_of [(''UsersResponse'', JNull)] ''UsersResponse''"
    and "map_of (foldl registerTypes [] ([] @ ?e1 # [?e2, ?e3]))
           (generateTypeName (path ?e1) ''Response'') = Some (response ?e1)"
    by blast+
  then have a: "map_of (foldl registerTypes [(''UsersResponse'', JNull)] [?e1]) ''UsersResponse''
             = Some JNull"
    and b: "map_of (foldl registerTypes [] [?e1, ?e2, ?e3]) ''UsersResponse''
             = Some (response ?e1)"
    by (simp_all add: n)
  from type_table_first_write_wins [of "[]" "[]" "[]" "[?e1]" ?e2 "[?e3]"] h2
  have "map_of (foldl registerTypes [] ([?e1] @ ?e2 # [?e3]))
           (generateTypeName (path ?e2) ''Request'') = Some (requestBody ?e2)"
    by blast
  then have c: "map_of (foldl registerTypes [] [?e1, ?e2, ?e3]) ''UsersRequest''
             = Some (requestBody ?e2)"
    by (simp add: n)
  from h0 a b c show ?thesis by simp
qed

text \<open>
  Without the condition on the request body the statement fails for request names: of
  two POST endpoints on the same path, the first with the sample \<^verbatim>\<open>0\<close> as its
  \<^verbatim>\<open>requestBody\<close>, the table binds the request name to the body of the second.
\<close>

theorem falsy_first_request_counterexample:
  "requestBody \<lparr>method' = ''POST'', path = ''/api/users'', requestBody = JNum 0,
        response = JObj [(''id'', JNum 1)], statusCode = None\<rparr> \<noteq> JUndefined
   \<and> generateTypeName ''/api/users'' ''Request'' = ''UsersRequest''
   \<and> foldl registerTypes []
        [\<lparr>method' = ''POST'', path = ''/api/users'', requestBody = JNum 0,
           response = JObj [(''id'', JNum 1)], statusCode = None\<rparr>,
         \<lparr>method' = ''POST'', path = ''/api/users'', requestBody = JObj [(''b'', JNum 2)],
           response = JObj [(''id'', JNum 2)], statusCode = None\<rparr>]
       = [(''UsersResponse'', JObj [(''id'', JNum 1)]),
          (''UsersRequest'', JObj [(''b'', JNum 2)])]"
  by code_simp

section \<open>Properties of the endpoint map\<close>

text \<open>
  Claim C8, as amended. The entry of an endpoint is named by the lower-cased method
  followed by the path fragment and returns \<^verbatim>\<open>Promise\<close> of the derived Response
  name; its single parameter \<^verbatim>\<open>body\<close> of the derived Request name is there exactly
  when \<^verbatim>\<open>requestBody\<close> is truthy (present and not null, false, zero or the empty
  text). The entries of all endpoints, in input order, form the body of
  \<^verbatim>\<open>ApiEndpoints\<close>.
\<close>

theorem endpoint_map_entry:
  "appendEndpoint td api =
     td @ ''  '' @ toLowerCase (method' api) @ pathToFunctionName (path api)
        @ '': ('' @ (if truthy (requestBody api)
                     then ''body: '' @ generateTypeName (path api) ''Request'' else [])
        @ '') => Promise<'' @ generateTypeName (path api) ''Response'' @ ''>'' @ nl
   \<and> generateTypes apis =
       foldl appendDeclaration
         (''// Auto-generated TypeScript types from API specification'' @ nl @ nl)
         (foldl registerTypes [] apis)
       @ ''// API function types'' @ nl @ ''export interface ApiEndpoints {'' @ nl
       @ concat (map (appendEndpoint []) apis) @ ''}'' @ nl"
  by (simp add: appendEndpoint_def generateTypes_def Let_def foldl_appendEndpoint)

theorem endpoint_map_entry_witness:
  "appendEndpoint [] \<lparr>method' = ''Post'', path = ''/api/users/{id}'',
        requestBody = JObj [(''name'', JStr ''x'')],
        response = JObj [(''id'', JNum 1)], statusCode = None\<rparr>
     = ''  postUsersId: (body: UsersIdRequest) => Promise<UsersIdResponse>\<newline>''
   \<and> appendEndpoint [] \<lparr>method' = ''GET'', path = ''/api/users'',
        requestBody = JUndefined,
        response = JArr [], statusCode = None\<rparr>
     = ''  getUsers: () => Promise<UsersResponse>\<newline>''"
proof -
  have a: "toLowerCase ''Post'' = ''post''" "toLowerCase ''GET'' = ''get''"
    "pathToFunctionName ''/api/users/{id}'' = ''UsersId''"
    "pathToFunctionName ''/api/users'' = ''Users''"
    by code_simp+
  show ?thesis
    using endpoint_map_entry [of "[]" "\<lparr>method' = ''Post'', path = ''/api/users/{id}'',
        requestBody = JObj [(''name'', JStr ''x'')],
        response = JObj [(''id'', JNum 1)], statusCode = None\<rparr>" "[]"]
      endpoint_map_entry [of "[]" "\<lparr>method' = ''GET'', path = ''/api/users'',
        requestBody = JUndefined,
        response = JArr [], statusCode = None\<rparr>" "[]"]
    by (simp add: a generateTypeName_fragment nl_def)
qed

text \<open>
  With "present" in place of "truthy" the statement fails: a POST endpoint whose
  \<^verbatim>\<open>requestBody\<close> is the sample \<^verbatim>\<open>false\<close> has the field, and its entry
  takes no parameter.
\<close>

theorem falsy_request_body_counterexample:
  "requestBody \<lparr>method' = ''POST'', path = ''/api/users'', requestBody = JBool False,
        response = JObj [(''id'', JNum 1)], statusCode = None\<rparr> \<noteq> JUndefined
   \<and> appendEndpoint [] \<lparr>method' = ''POST'', path = ''/api/users'', requestBody = JBool False,
        response = JObj [(''id'', JNum 1)], statusCode = None\<rparr>
      = ''  postUsers: () => Promise<UsersResponse>\<newline>''"
  by code_simp

text \<open>
  Claim C10, as amended. An endpoint whose \<^verbatim>\<open>requestBody\<close> is truthy and whose
  method is none of POST, PUT and PATCH gets an entry with a \<^verbatim>\<open>body\<close> parameter
  of the derived Request name, while its registration step leaves the binding of that
  name as it was: absent if it was absent.
\<close>

theorem body_parameter_without_registration:
  assumes "truthy (requestBody api)"
    and "toLowerCase (method' api) \<notin> set [''post'', ''put'', ''patch'']"
  shows "appendEndpoint td api =
     td @ ''  '' @ toLowerCase (method' api) @ pathToFunctionName (path api)
        @ '': (body: '' @ generateTypeName (path api) ''Request''
        @ '') => Promise<'' @ generateTypeName (path api) ''Response'' @ ''>'' @ nl
   \<and> map_of (registerTypes types api) (generateTypeName (path api) ''Request'')
       = map_of types (generateTypeName (path api) ''Request'')
   \<and> types_has (registerTypes types api) (generateTypeName (path api) ''Request'')
       = types_has types (generateTypeName (path api) ''Request'')"
proof -
  have "map_of (registerTypes types api) (generateTypeName (path api) ''Request'')
       = map_of types (generateTypeName (path api) ''Request'')"
    using assms(2) by (intro registerTypes_request_untouched) simp
  then show ?thesis using assms(1)
    by (simp add: appendEndpoint_def Let_def types_has_map_of)
qed

theorem body_parameter_without_registration_witness:
  "truthy (JObj [(''q'', JStr ''x'')])
   \<and> appendEndpoint [] \<lparr>method' = ''GET'', path = ''/api/search'',
        requestBody = JObj [(''q'', JStr ''x'')], response = JArr [], statusCode = None\<rparr>
      = ''  getSearch: (body: SearchRequest) => Promise<SearchResponse>\<newline>''
   \<and> \<not> types_has (registerTypes [] \<lparr>method' = ''GET'', path = ''/api/search'',
        requestBody = JObj [(''q'', JStr ''x'')], response = JArr [], statusCode = None\<rparr>)
        ''SearchRequest''"
proof -
  have h1: "truthy (requestBody \<lparr>method' = ''GET'', path = ''/api/search'',
        requestBody = JObj [(''q'', JStr ''x'')], response = JArr [], statusCode = None\<rparr>)"
    by simp
  have h2: "toLowerCase (method' \<lparr>method' = ''GET'', path = ''/api/search'',
        requestBody = JObj [(''q'', JStr ''x'')], response = JArr [], statusCode = None\<rparr>)
      \<notin> set [''post'', ''put'', ''patch'']"
    by code_simp
  have a: "toLowerCase ''GET'' = ''get''" "pathToFunctionName ''/api/search'' = ''Search''"
    by code_simp+
  from body_parameter_without_registration [OF h1 h2, of "[]" "[]"]
  show ?thesis by (simp add: a generateTypeName_fragment nl_def types_has_def)
qed

text \<open>
  For a \<^verbatim>\<open>requestBody\<close> that is present but not truthy the entry has no parameter:
  a GET endpoint whose \<^verbatim>\<open>requestBody\<close> is the empty text.
\<close>

theorem empty_text_request_body_counterexample:
  "requestBody \<lparr>method' = ''GET'', path = ''/api/search'', requestBody = JStr [],
        response = JArr [], statusCode = None\<rparr> \<noteq> JUndefined
   \<and> toLowerCase (method' \<lparr>method' = ''GET'', path = ''/api/search'', requestBody = JStr [],
        response = JArr [], statusCode = None\<rparr>) \<notin> set [''post'', ''put'', ''patch'']
   \<and> appendEndpoint [] \<lparr>method' = ''GET'', path = ''/api/search'', requestBody = JStr [],
        response = JArr [], statusCode = None\<rparr>
      = ''  getSearch: () => Promise<SearchResponse>\<newline>''"
  by code_simp

section \<open>Properties of the run\<close>

text \<open>
  Claim C5, as amended. An endpoint whose lower-cased method is none of get, post, put,
  patch and delete gets no handler; its response name is bound in the table and declared
  in the type-declarations document; its registration step leaves the binding of its
  request name as it was, so the endpoint registers no request type.
\<close>

theorem unsupported_method_skipped:
  assumes "toLowerCase (method' api) \<notin> set [''get'', ''post'', ''put'', ''patch'', ''delete'']"
  shows "handler api = None
   \<and> (\<exists>v before after.
         map_of (foldl registerTypes [] (pre @ api # post))
           (generateTypeName (path api) ''Response'') = Some v
         \<and> generateTypes (pre @ api # post)
           = before @ appendDeclaration [] (generateTypeName (path api) ''Response'', v) @ after)
   \<and> map_of (registerTypes types api) (generateTypeName (path api) ''Request'')
       = map_of types (generateTypeName (path api) ''Request'')"
proof (intro conjI)
  show "handler api = None"
    using assms by (simp add: handler_def Let_def)
next
  let ?n = "generateTypeName (path api) ''Response''"
  have "types_has (registerTypes (foldl registerTypes [] pre) api) ?n"
    by (rule registerTypes_response_present)
  then have "types_has (foldl registerTypes [] (pre @ api # post)) ?n"
    using foldl_registerTypes_keeps
      [of "registerTypes (foldl registerTypes [] pre) api" ?n post] by simp
  then obtain v where v: "map_of (foldl registerTypes [] (pre @ api # post)) ?n = Some v"
    by (auto simp: types_has_map_of)
  from declaration_in_document [OF v] v
  show "\<exists>v before after.
         map_of (foldl registerTypes [] (pre @ api # post)) ?n = Some v
         \<and> generateTypes (pre @ api # post)
           = before @ appendDeclaration [] (?n, v) @ after"
    by blast
next
  show "map_of (registerTypes types api) (generateTypeName (path api) ''Request'')
       = map_of types (generateTypeName (path api) ''Request'')"
    using assms by (intro registerTypes_request_untouched) simp
qed

theorem unsupported_method_skipped_witness:
  "handler \<lparr>method' = ''Head'', path = ''/api/ping'',
        requestBody = JObj [(''a'', JNum 1)], response = JNull, statusCode = None\<rparr> = None
   \<and> map_of (registerTypes [] \<lparr>method' = ''Head'', path = ''/api/ping'',
        requestBody = JObj [(''a'', JNum 1)], response = JNull, statusCode = None\<rparr>)
        (generateTypeName ''/api/ping'' ''Request'') = None"
proof -
  have h: "toLowerCase (method' \<lparr>method' = ''Head'', path = ''/api/ping'',
        requestBody = JObj [(''a'', JNum 1)], response = JNull, statusCode = None\<rparr>)
      \<notin> set [''get'', ''post'', ''put'', ''patch'', ''delete'']"
    by code_simp
  from unsupported_method_skipped [OF h, of "[]" "[]" "[]"]
  show ?thesis by simp
qed

text \<open>
  The request type is not registered: for an OPTIONS endpoint with a request body the
  table holds the response name only, while the endpoint map still names the request
  type.
\<close>

theorem unsupported_method_request_counterexample:
  "toLowerCase ''OPTIONS'' = ''options''
   \<and> handler \<lparr>method' = ''OPTIONS'', path = ''/api/users'',
        requestBody = JObj [(''a'', JNum 1)], response = JObj [(''ok'', JBool True)],
        statusCode = None\<rparr> = None
   \<and> foldl registerTypes [] [\<lparr>method' = ''OPTIONS'', path = ''/api/users'',
        requestBody = JObj [(''a'', JNum 1)], response = JObj [(''ok'', JBool True)],
        statusCode = None\<rparr>] = [(''UsersResponse'', JObj [(''ok'', JBool True)])]
   \<and> \<not> types_has (foldl registerTypes [] [\<lparr>method' = ''OPTIONS'', path = ''/api/users'',
        requestBody = JObj [(''a'', JNum 1)], response = JObj [(''ok'', JBool True)],
        statusCode = None\<rparr>]) (generateTypeName ''/api/users'' ''Request'')
   \<and> generateTypes [\<lparr>method' = ''OPTIONS'', path = ''/api/users'',
        requestBody = JObj [(''a'', JNum 1)], response = JObj [(''ok'', JBool True)],
        statusCode = None\<rparr>]
      = ''// Auto-generated TypeScript types from API specification\<newline>\<newline>export interface UsersResponse {\<newline>  ok: boolean\<newline>}\<newline>\<newline>// API function types\<newline>export interface ApiEndpoints {\<newline>  optionsUsers: (body: UsersRequest) => Promise<UsersResponse>\<newline>}\<newline>''"
  by code_simp

subsection \<open>An endpoint without a response\<close>

lemma join_contains:
  "\<exists>before after. join sep (xs @ x # ys) = before @ x @ after"
proof (induction xs)
  case Nil
  show ?case
  proof (cases ys)
    case Nil
    then have "join sep ([] @ x # ys) = [] @ x @ []" by simp
    then show ?thesis by blast
  next
    case (Cons y ys')
    then have "join sep ([] @ x # ys) = [] @ x @ (sep @ join sep (y # ys'))" by simp
    then show ?thesis by blast
  qed
next
  case (Cons a xs)
  then obtain before after where "join sep (xs @ x # ys) = before @ x @ after" by blast
  moreover obtain z zs where "xs @ x # ys = z # zs" by (cases "xs @ x # ys") auto
  ultimately have "join sep ((a # xs) @ x # ys) = (a @ sep @ before) @ x @ after" by simp
  then show ?case by blast
qed

lemma handler_in_document:
  assumes "handler api = Some h"
  shows "\<exists>before after. generateHandlers (pre @ api # post) = before @ h @ after"
proof -
  let ?f = "\<lambda>api. case handler api of None \<Rightarrow> [] | Some h \<Rightarrow> h"
  obtain b a where "join ('','' @ nl @ nl) (map ?f pre @ h # map ?f post) = b @ h @ a"
    using join_contains [of "'','' @ nl @ nl" "map ?f pre" h "map ?f post"] by blast
  then have "generateHandlers (pre @ api # post) =
      (''import { http, HttpResponse } from '' @ apostrophe @ ''msw'' @ apostrophe @ nl @ nl
        @ ''// Auto-generated handlers from API specification'' @ nl
        @ ''export const handlers = ['' @ nl @ b) @ h @ (a @ nl @ '']'' @ nl)"
    using assms by (simp add: generateHandlers_def Let_def)
  then show ?thesis by blast
qed

lemma stringify_undefined: "interpolate (JSON_stringify JUndefined n) = ''undefined''"
  by (simp add: interpolate_def JSON_stringify_def)



lemma handler_get:
  assumes r: "response api = JUndefined" and get: "toLowerCase (method' api) = ''get''"
  shows "handler api = Some ((''  // '' @ method' api @ '' '' @ path api @ nl
              @ ''  http.'' @ toLowerCase (method' api) @ ''('' @ apostrophe
              @ (if includesChar (path api) CHR ''{'' \<or> includesChar (path api) CHR '':''
                 then replaceParams (path api) @ apostrophe @ '', ({ params }) => {''
                 else path api @ apostrophe @ '', () => {'')
              @ nl @ ''    return '') @ ''HttpResponse.json('' @ [] @ ''undefined'' @ '')''
            @ (nl @ ''  })''))"
  using get by (simp add: handler_def Let_def r stringify_undefined)

lemma handler_delete:
  assumes r: "response api = JUndefined" and del: "toLowerCase (method' api) = ''delete''"
  shows "handler api = Some ((''  // '' @ method' api @ '' '' @ path api @ nl
              @ ''  http.'' @ toLowerCase (method' api) @ ''('' @ apostrophe
              @ replaceParams (path api) @ apostrophe
              @ '', ({ params }) => {'' @ nl @ ''    return '') @ ''HttpResponse.json('' @ (nl @ ''      '') @ ''undefined''
            @ '','' @ (nl @ ''      { status: ''
              @ numberToString (case statusCode api of None \<Rightarrow> 200 | Some c \<Rightarrow> c)
              @ '' }'' @ nl @ ''    )'' @ nl @ ''  })''))"
  using del by (simp add: handler_def Let_def r stringify_undefined)

lemma handler_body:
  assumes r: "response api = JUndefined"
    and body: "toLowerCase (method' api) \<noteq> ''get''"
        "toLowerCase (method' api) \<in> set [''post'', ''put'', ''patch'']"
  shows "handler api = Some ((''  // '' @ method' api @ '' '' @ path api @ nl
              @ ''  http.'' @ toLowerCase (method' api) @ ''('' @ apostrophe
              @ replaceParams (path api) @ apostrophe
              @ '', async ({ params, request }) => {'' @ nl
              @ ''    '' @ (if truthy (requestBody api)
                            then ''const body = await request.json() ''
                                   @ ''as '' @ generateTypeName (path api) ''Request'' else [])
              @ nl @ ''    return '') @ ''HttpResponse.json('' @ (nl @ ''      '') @ ''undefined''
            @ '','' @ (nl @ ''      { status: ''
              @ numberToString (case statusCode api of None \<Rightarrow> 200 | Some c \<Rightarrow> c)
              @ '' }'' @ nl @ ''    )'' @ nl @ ''  })''))"
proof -
  have "handler api = Some (''  // '' @ method' api @ '' '' @ path api @ nl
              @ ''  http.'' @ toLowerCase (method' api) @ ''('' @ apostrophe
              @ replaceParams (path api) @ apostrophe
              @ '', async ({ params, request }) => {'' @ nl
              @ ''    '' @ (if truthy (requestBody api)
                            then ''const body = await request.json() ''
                                   @ (if truthy (requestBody api)
                            then ''as '' @ generateTypeName (path api) ''Request'' else []) else [])
              @ nl
              @ ''    return HttpResponse.json('' @ nl
              @ ''      '' @ interpolate (JSON_stringify (response api) 6) @ '','' @ nl
              @ ''      { status: '' @ numberToString (case statusCode api of None \<Rightarrow> 200 | Some c \<Rightarrow> c) @ '' }'' @ nl
              @ ''    )'' @ nl
              @ ''  })'')"
    unfolding handler_def Let_def using body by (simp only: if_False if_True)
  then show ?thesis by (simp add: r stringify_undefined)
qed


lemma handler_absent_response:
  assumes r: "response api = JUndefined"
    and m: "toLowerCase (method' api) \<in> set [''get'', ''post'', ''put'', ''patch'', ''delete'']"
  shows "\<exists>p q. handler api =
     Some (p @ ''HttpResponse.json(''
             @ (if toLowerCase (method' api) = ''get'' then [] else nl @ ''      '')
             @ ''undefined''
             @ (if toLowerCase (method' api) = ''get'' then '')'' else '','') @ q)"
proof (cases "toLowerCase (method' api) = ''get''")
  case True
  have "\<exists>p q. handler api = Some (p @ ''HttpResponse.json('' @ [] @ ''undefined'' @ '')'' @ q)"
    by (intro exI) (rule handler_get [OF r True])
  with True show ?thesis by (simp only: simp_thms if_True)
next
  case False
  have "\<exists>p q. handler api =
          Some (p @ ''HttpResponse.json('' @ (nl @ ''      '') @ ''undefined'' @ '','' @ q)"
  proof (cases "toLowerCase (method' api) \<in> set [''post'', ''put'', ''patch'']")
    case True
    show ?thesis by (intro exI) (rule handler_body [OF r False True])
  next
    case nb: False
    with m False have "toLowerCase (method' api) = ''delete''" by simp
    then show ?thesis by (intro exI) (rule handler_delete [OF r])
  qed
  with False show ?thesis by (simp only: if_False)
qed

text \<open>
  Claim C4, as amended. An endpoint without \<^verbatim>\<open>response\<close> (with a method and a
  path that are strings) does not make the run fail: once \<^verbatim>\<open>apis\<close> is an array
  the run returns both documents, wherever the endpoint stands in the list. If its method
  is one of the five that get a handler, its handler is in the handlers document and
  passes \<^verbatim>\<open>undefined\<close> as the response body; if no earlier endpoint derives the
  same response name, the table binds that name to the absent value and the
  type-declarations document declares it as an interface of type \<^verbatim>\<open>any\<close>.
\<close>

theorem absent_response_not_rejected:
  assumes "response api = JUndefined"
  shows "main (Some (pre @ api # post))
           = Inr (generateHandlers (pre @ api # post), generateTypes (pre @ api # post))
   \<and> (toLowerCase (method' api) \<in> set [''get'', ''post'', ''put'', ''patch'', ''delete'']
        \<longrightarrow> (\<exists>h p q before after.
               handler api = Some h
               \<and> h = p @ ''HttpResponse.json(''
                       @ (if toLowerCase (method' api) = ''get'' then [] else nl @ ''      '')
                       @ ''undefined''
                       @ (if toLowerCase (method' api) = ''get'' then '')'' else '','') @ q
               \<and> generateHandlers (pre @ api # post) = before @ h @ after))
   \<and> ((\<forall>a\<in>set pre. generateTypeName (path a) ''Response''
                       \<noteq> generateTypeName (path api) ''Response'')
        \<longrightarrow> map_of (foldl registerTypes [] (pre @ api # post))
               (generateTypeName (path api) ''Response'') = Some JUndefined
            \<and> (\<exists>before after.
                 generateTypes (pre @ api # post)
                   = before @ ''export interface '' @ generateTypeName (path api) ''Response''
                       @ '' any'' @ nl @ nl @ after))"
proof (intro conjI impI)
  show "main (Some (pre @ api # post))
           = Inr (generateHandlers (pre @ api # post), generateTypes (pre @ api # post))"
    by (simp add: main_def Let_def)
next
  assume "toLowerCase (method' api) \<in> set [''get'', ''post'', ''put'', ''patch'', ''delete'']"
  from handler_absent_response [OF assms this] obtain p q where
    h: "handler api = Some (p @ ''HttpResponse.json(''
             @ (if toLowerCase (method' api) = ''get'' then [] else nl @ ''      '')
             @ ''undefined''
             @ (if toLowerCase (method' api) = ''get'' then '')'' else '','') @ q)"
    by blast
  from handler_in_document [OF h, of pre post] h
  show "\<exists>h p q before after.
               handler api = Some h
               \<and> h = p @ ''HttpResponse.json(''
                       @ (if toLowerCase (method' api) = ''get'' then [] else nl @ ''      '')
                       @ ''undefined''
                       @ (if toLowerCase (method' api) = ''get'' then '')'' else '','') @ q
               \<and> generateHandlers (pre @ api # post) = before @ h @ after"
    by blast
next
  assume first: "\<forall>a\<in>set pre. generateTypeName (path a) ''Response''
                       \<noteq> generateTypeName (path api) ''Response''"
  let ?n = "generateTypeName (path api) ''Response''"
  from response_first_wins [OF first, of post] assms
  show v: "map_of (foldl registerTypes [] (pre @ api # post)) ?n = Some JUndefined"
    by simp
  have "appendDeclaration [] (?n, JUndefined) = ''export interface '' @ ?n @ '' any'' @ nl @ nl"
    by (simp add: appendDeclaration_def)
  with declaration_in_document [OF v]
  show "\<exists>before after.
          generateTypes (pre @ api # post)
            = before @ ''export interface '' @ ?n @ '' any'' @ nl @ nl @ after"
    by (simp only: append_assoc)
qed

theorem absent_response_not_rejected_witness:
  "main (Some [\<lparr>method' = ''GET'', path = ''/api/items'', requestBody = JUndefined,
                response = JArr [JNum 1], statusCode = None\<rparr>,
              \<lparr>method' = ''DELETE'', path = ''/api/users/{id}'', requestBody = JUndefined,
                response = JUndefined, statusCode = None\<rparr>])
     = Inr (generateHandlers
              [\<lparr>method' = ''GET'', path = ''/api/items'', requestBody = JUndefined,
                response = JArr [JNum 1], statusCode = None\<rparr>,
               \<lparr>method' = ''DELETE'', path = ''/api/users/{id}'', requestBody = JUndefined,
                response = JUndefined, statusCode = None\<rparr>],
            generateTypes
              [\<lparr>method' = ''GET'', path = ''/api/items'', requestBody = JUndefined,
                response = JArr [JNum 1], statusCode = None\<rparr>,
               \<lparr>method' = ''DELETE'', path = ''/api/users/{id}'', requestBody = JUndefined,
                response = JUndefined, statusCode = None\<rparr>])
   \<and> (\<exists>p q before after.
         generateHandlers
              [\<lparr>method' = ''GET'', path = ''/api/items'', requestBody = JUndefined,
                response = JArr [JNum 1], statusCode = None\<rparr>,
               \<lparr>method' = ''DELETE'', path = ''/api/users/{id}'', requestBody = JUndefined,
                response = JUndefined, statusCode = None\<rparr>]
           = before @ (p @ ''HttpResponse.json('' @ nl @ ''      undefined,'' @ q) @ after)
   \<and> (\<exists>before after.
         generateTypes
              [\<lparr>method' = ''GET'', path = ''/api/items'', requestBody = JUndefined,
                response = JArr [JNum 1], statusCode = None\<rparr>,
               \<lparr>method' = ''DELETE'', path = ''/api/users/{id}'', requestBody = JUndefined,
                response = JUndefined, statusCode = None\<rparr>]
           = before @ ''export interface UsersIdResponse any'' @ nl @ nl @ after)"
proof -
  let ?e1 = "\<lparr>method' = ''GET'', path = ''/api/items'', requestBody = JUndefined,
                response = JArr [JNum 1], statusCode = None\<rparr>"
  let ?e2 = "\<lparr>method' = ''DELETE'', path = ''/api/users/{id}'', requestBody = JUndefined,
                response = JUndefined, statusCode = None\<rparr>"
  have h1: "response ?e2 = JUndefined" by simp
  have h2: "toLowerCase (method' ?e2) \<in> set [''get'', ''post'', ''put'', ''patch'', ''delete'']"
    by code_simp
  have ng: "toLowerCase (method' ?e2) \<noteq> ''get''" by code_simp
  have n: "generateTypeName (path ?e2) ''Response'' = ''UsersIdResponse''" by code_simp
  have h3: "\<forall>a\<in>set [?e1]. generateTypeName (path a) ''Response''
               \<noteq> generateTypeName (path ?e2) ''Response''"
    by code_simp
  note t = absent_response_not_rejected [OF h1, of "[?e1]" "[]"]
  from t have a: "main (Some [?e1, ?e2]) = Inr (generateHandlers [?e1, ?e2], generateTypes [?e1, ?e2])"
    by simp
  from t h2 obtain h p q before after where
    "h = p @ ''HttpResponse.json(''
           @ (if toLowerCase (method' ?e2) = ''get'' then [] else nl @ ''      '')
           @ ''undefined''
           @ (if toLowerCase (method' ?e2) = ''get'' then '')'' else '','') @ q"
    and "generateHandlers ([?e1] @ ?e2 # []) = before @ h @ after"
    by blast
  with ng have b: "generateHandlers [?e1, ?e2]
           = before @ (p @ ''HttpResponse.json('' @ nl @ ''      undefined,'' @ q) @ after"
    by simp
  from t h3 obtain before' after' where
    "generateTypes ([?e1] @ ?e2 # [])
       = before' @ ''export interface '' @ generateTypeName (path ?e2) ''Response''
           @ '' any'' @ nl @ nl @ after'"
    by blast
  with n have c: "generateTypes [?e1, ?e2]
           = before' @ ''export interface UsersIdResponse any'' @ nl @ nl @ after'"
    by simp
  from a b c show ?thesis by blast
qed

text \<open>
  An endpoint without \<^verbatim>\<open>response\<close> does not make the run fail: these are the two
  documents it produces.
\<close>

theorem absent_response_counterexample:
  "main (Some [\<lparr>method' = ''GET'', path = ''/api/users'', requestBody = JUndefined,
                response = JUndefined, statusCode = None\<rparr>])
  = Inr (''import { http, HttpResponse } from '' @ apostrophe @ ''msw'' @ apostrophe
           @ ''\<newline>\<newline>// Auto-generated handlers from API specification\<newline>export const handlers = [\<newline>  // GET /api/users\<newline>  http.get('' @ apostrophe @ ''/api/users'' @ apostrophe
           @ '', () => {\<newline>    return HttpResponse.json(undefined)\<newline>  })\<newline>]\<newline>'',
         ''// Auto-generated TypeScript types from API specification\<newline>\<newline>export interface UsersResponse any\<newline>\<newline>// API function types\<newline>export interface ApiEndpoints {\<newline>  getUsers: () => Promise<UsersResponse>\<newline>}\<newline>'')"
  by code_simp

end
